theory Spec2Isabelle
  imports Main "HOL-Library.Sublist" "HOL-Library.Multiset"
begin

section \<open>The analysis engine of k8sgpt (pkg/analysis/analysis.go)\<close>

text \<open>
  The theory embeds the orchestration code of \<^verbatim>\<open>pkg/analysis/analysis.go\<close>:
  the bounded launch of analyzers (\<^verbatim>\<open>RunAnalysis\<close>, \<^verbatim>\<open>executeAnalyzer\<close>),
  the runner of custom analyzers (\<^verbatim>\<open>RunCustomAnalysis\<close>) and the explanation
  step (\<^verbatim>\<open>GetAIResults\<close>, \<^verbatim>\<open>getAIResultForSanitizedFailures\<close>).

  Go strings are byte sequences and are modelled as \<^typ>\<open>string\<close>; a Go \<^verbatim>\<open>error\<close>
  is modelled by its message, the text \<^verbatim>\<open>err.Error()\<close> returns and \<^verbatim>\<open>%v\<close> prints.
\<close>

type_synonym err = string

subsection \<open>Go library functions on strings\<close>

text \<open>\<^verbatim>\<open>strings.Contains(s, substr)\<close>.\<close>

fun Contains :: "string \<Rightarrow> string \<Rightarrow> bool" where
  "Contains [] substr = (substr = [])"
| "Contains (c # cs) substr = (prefix substr (c # cs) \<or> Contains cs substr)"

text \<open>\<^verbatim>\<open>strings.Join(elems, sep)\<close>.\<close>

fun Join :: "string list \<Rightarrow> string \<Rightarrow> string" where
  "Join [] sep = []"
| "Join [x] sep = x"
| "Join (x # y # ys) sep = x @ sep @ Join (y # ys) sep"

text \<open>
  \<^verbatim>\<open>utf8.DecodeRuneInString\<close>, as far as \<^verbatim>\<open>strings.Replace\<close> uses it: the number of
  bytes of the first rune of a string. An invalid or truncated encoding has width 1.
  \<open>utf8_width sz lo hi cs\<close> looks at the bytes \<open>cs\<close> after a first byte that announces
  \<open>sz\<close> bytes and accepts a second byte between \<open>lo\<close> and \<open>hi\<close>.
\<close>

definition in_range :: "nat \<Rightarrow> nat \<Rightarrow> char \<Rightarrow> bool" where
  "in_range lo hi c = (lo \<le> of_char c \<and> (of_char c :: nat) \<le> hi)"

definition utf8_width :: "nat \<Rightarrow> nat \<Rightarrow> nat \<Rightarrow> string \<Rightarrow> nat" where
  "utf8_width sz lo hi cs =
     (if length cs + 1 < sz then 1
      else if \<not> in_range lo hi (cs ! 0) then 1
      else if sz \<le> 2 then 2
      else if \<not> in_range 0x80 0xBF (cs ! 1) then 1
      else if sz \<le> 3 then 3
      else if \<not> in_range 0x80 0xBF (cs ! 2) then 1
      else 4)"

fun rune_width :: "string \<Rightarrow> nat" where
  "rune_width [] = 0"
| "rune_width (c # cs) =
     (let b = (of_char c :: nat) in
      if b < 0xC2 then 1
      else if b < 0xE0 then utf8_width 2 0x80 0xBF cs
      else if b = 0xE0 then utf8_width 3 0xA0 0xBF cs
      else if b < 0xED then utf8_width 3 0x80 0xBF cs
      else if b = 0xED then utf8_width 3 0x80 0x9F cs
      else if b < 0xF0 then utf8_width 3 0x80 0xBF cs
      else if b = 0xF0 then utf8_width 4 0x90 0xBF cs
      else if b < 0xF4 then utf8_width 4 0x80 0xBF cs
      else if b = 0xF4 then utf8_width 4 0x80 0x8F cs
      else 1)"

text \<open>
  \<^verbatim>\<open>strings.Replace(s, old, new, -1)\<close> for an empty \<open>old\<close>: \<open>new\<close> is written before
  every rune and once more at the end. \<open>k\<close> counts the bytes of the current rune that are
  still to be copied.
\<close>

fun insert_runes :: "string \<Rightarrow> nat \<Rightarrow> string \<Rightarrow> string" where
  "insert_runes new k [] = new"
| "insert_runes new k (c # cs) =
     (if k = 0 then new @ c # insert_runes new (rune_width (c # cs) - 1) cs
      else c # insert_runes new (k - 1) cs)"

text \<open>
  \<^verbatim>\<open>strings.Replace(s, old, new, -1)\<close> for a non-empty \<open>old\<close>: the occurrences are
  found from the left by \<^verbatim>\<open>strings.Index\<close>, each search starting behind the previous
  occurrence, so they do not overlap.
\<close>

fun replace_occurrences :: "string \<Rightarrow> string \<Rightarrow> string \<Rightarrow> string" where
  "replace_occurrences [] old new = []"
| "replace_occurrences (c # cs) old new =
     (if old \<noteq> [] \<and> prefix old (c # cs)
      then new @ replace_occurrences (drop (length old) (c # cs)) old new
      else c # replace_occurrences cs old new)"

text \<open>\<^verbatim>\<open>strings.ReplaceAll(s, old, new)\<close>.\<close>

definition ReplaceAll :: "string \<Rightarrow> string \<Rightarrow> string \<Rightarrow> string" where
  "ReplaceAll s old new =
     (if old = new then s
      else if old = [] then insert_runes new 0 s
      else replace_occurrences s old new)"

subsection \<open>Standard base64 (encoding/base64, StdEncoding)\<close>

definition encodeStd :: string where
  "encodeStd = ''ABCDEFGHIJKLMNOPQRSTUVWXYZabcdefghijklmnopqrstuvwxyz0123456789+/''"

definition b64_char :: "nat \<Rightarrow> char" where
  "b64_char n = encodeStd ! n"

fun index_of :: "char \<Rightarrow> string \<Rightarrow> nat option" where
  "index_of c [] = None"
| "index_of c (d # ds) = (if c = d then Some 0 else map_option Suc (index_of c ds))"

definition b64_index :: "char \<Rightarrow> nat option" where
  "b64_index c = index_of c encodeStd"

text \<open>\<^verbatim>\<open>base64.StdEncoding.EncodeToString\<close>: three bytes become four characters, and a
  last group of one or two bytes is padded with \<^verbatim>\<open>=\<close>.\<close>

fun EncodeToString :: "string \<Rightarrow> string" where
  "EncodeToString [] = []"
| "EncodeToString [a] =
     (let x = (of_char a :: nat) in
      [b64_char (x div 4), b64_char ((x mod 4) * 16), CHR ''='', CHR ''=''])"
| "EncodeToString [a, b] =
     (let x = (of_char a :: nat); y = (of_char b :: nat) in
      [b64_char (x div 4), b64_char ((x mod 4) * 16 + y div 16),
       b64_char ((y mod 16) * 4), CHR ''=''])"
| "EncodeToString (a # b # c # rest) =
     (let x = (of_char a :: nat); y = (of_char b :: nat); z = (of_char c :: nat) in
      [b64_char (x div 4), b64_char ((x mod 4) * 16 + y div 16),
       b64_char ((y mod 16) * 4 + z div 64), b64_char (z mod 64)] @ EncodeToString rest)"

text \<open>
  The bytes of one group of four characters. The decoder is not strict: the bits of the
  last character that a padded group does not use are dropped without a check.
\<close>

definition quantum1 :: "char \<Rightarrow> char \<Rightarrow> string option" where
  "quantum1 a b =
     (case (b64_index a, b64_index b) of
        (Some p, Some q) \<Rightarrow> Some [char_of (p * 4 + q div 16)]
      | _ \<Rightarrow> None)"

definition quantum2 :: "char \<Rightarrow> char \<Rightarrow> char \<Rightarrow> string option" where
  "quantum2 a b c =
     (case (b64_index a, b64_index b, b64_index c) of
        (Some p, Some q, Some r) \<Rightarrow>
          Some [char_of (p * 4 + q div 16), char_of ((q mod 16) * 16 + r div 4)]
      | _ \<Rightarrow> None)"

definition quantum3 :: "char \<Rightarrow> char \<Rightarrow> char \<Rightarrow> char \<Rightarrow> string option" where
  "quantum3 a b c d =
     (case (b64_index a, b64_index b, b64_index c, b64_index d) of
        (Some p, Some q, Some r, Some s) \<Rightarrow>
          Some [char_of (p * 4 + q div 16), char_of ((q mod 16) * 16 + r div 4),
                char_of ((r mod 4) * 64 + s)]
      | _ \<Rightarrow> None)"

text \<open>Groups of four; padding is accepted in the last group only, and an incomplete
  group is corrupt input.\<close>

fun decode_quanta :: "string \<Rightarrow> string option" where
  "decode_quanta [] = Some []"
| "decode_quanta [a, b, c, d] =
     (if c = CHR ''='' \<and> d = CHR ''='' then quantum1 a b
      else if d = CHR ''='' then quantum2 a b c
      else quantum3 a b c d)"
| "decode_quanta (a # b # c # d # rest) =
     (case quantum3 a b c d of
        None \<Rightarrow> None
      | Some bytes \<Rightarrow> map_option ((@) bytes) (decode_quanta rest))"
| "decode_quanta _ = None"

text \<open>\<^verbatim>\<open>base64.StdEncoding.DecodeString\<close>: carriage returns and line feeds are skipped;
  \<open>None\<close> is a \<^verbatim>\<open>CorruptInputError\<close>.\<close>

definition DecodeString :: "string \<Rightarrow> string option" where
  "DecodeString s =
     decode_quanta (filter (\<lambda>c. c \<noteq> CHR 0x0D \<and> c \<noteq> CHR 0x0A) s)"

subsection \<open>Data model\<close>

text \<open>\<^verbatim>\<open>common.Sensitive\<close>, \<^verbatim>\<open>common.Failure\<close> and \<^verbatim>\<open>common.Result\<close>, with the
  fields that analysis.go reads or writes.\<close>

record sensitive =
  Unmasked :: string
  Masked :: string

record failure =
  Text :: string
  Sensitive :: "sensitive list"

record result =
  Kind :: string
  Error :: "failure list"
  Details :: string

text \<open>\<^verbatim>\<open>common.AnalysisStats\<close>; the duration is counted in nanoseconds.\<close>

record analysis_stats =
  Analyzer :: string
  DurationTime :: nat

subsection \<open>Collaborators of the explanation step\<close>

text \<open>
  Modelled from the spec: the cache behind \<^verbatim>\<open>cache.ICache\<close> (package pkg/cache is not
  among the sources). The spec gives its interface, \<^verbatim>\<open>Exists\<close>, \<^verbatim>\<open>Load\<close>, \<^verbatim>\<open>Store\<close>
  and \<^verbatim>\<open>IsDisabled\<close>, an entry "keyed by a string fingerprint, valued by an encoded
  response payload", and "a disabled state in which all lookups report absent and all
  stores are no-ops". \<^verbatim>\<open>Load\<close> and \<^verbatim>\<open>Store\<close> may fail: \<open>load_error\<close> and
  \<open>store_error\<close> give the keys for which they do, with the error.
\<close>

record cache =
  disabled :: bool
  entries :: "string \<rightharpoonup> string"
  load_error :: "string \<rightharpoonup> err"
  store_error :: "string \<rightharpoonup> err"

definition IsCacheDisabled :: "cache \<Rightarrow> bool" where
  "IsCacheDisabled c = disabled c"

definition Exists :: "cache \<Rightarrow> string \<Rightarrow> bool" where
  "Exists c key = (\<not> disabled c \<and> entries c key \<noteq> None)"

definition Load :: "cache \<Rightarrow> string \<Rightarrow> err + string" where
  "Load c key =
     (case load_error c key of
        Some e \<Rightarrow> Inl e
      | None \<Rightarrow>
          (if disabled c then Inl ''cache entry not found''
           else case entries c key of
                  Some payload \<Rightarrow> Inr payload
                | None \<Rightarrow> Inl ''cache entry not found''))"

definition Store :: "cache \<Rightarrow> string \<Rightarrow> string \<Rightarrow> err option \<times> cache" where
  "Store c key payload =
     (if disabled c then (None, c)
      else case store_error c key of
             Some e \<Rightarrow> (Some e, c)
           | None \<Rightarrow> (None, c\<lparr>entries := (entries c)(key \<mapsto> payload)\<rparr>))"

text \<open>
  The completion client behind \<^verbatim>\<open>ai.IAI\<close>: its name, the prompts it has been sent so
  far, and its answer to a prompt, which may depend on the earlier prompts.
\<close>

record ai_client =
  GetName :: string
  respond :: "string list \<Rightarrow> string \<Rightarrow> err + string"
  prompts :: "string list"

definition GetCompletion :: "ai_client \<Rightarrow> string \<Rightarrow> (err + string) \<times> ai_client" where
  "GetCompletion cl prompt =
     (respond cl (prompts cl) prompt, cl\<lparr>prompts := prompts cl @ [prompt]\<rparr>)"

text \<open>
  What the explanation step takes from packages that are not among the sources:
  \<^verbatim>\<open>util.GetCacheKey\<close>, the constant \<^verbatim>\<open>ai.CustomRestClientName\<close> and the template
  \<^verbatim>\<open>ai.PromptMap["raw"]\<close>; and from the Go library, \<^verbatim>\<open>strings.TrimSpace\<close> and
  \<^verbatim>\<open>fmt.Sprintf\<close> (a format and its arguments).
\<close>

record ai_env =
  GetCacheKey :: "string \<Rightarrow> string \<Rightarrow> string \<Rightarrow> string"
  CustomRestClientName :: string
  rawPrompt :: string
  TrimSpace :: "string \<Rightarrow> string"
  Sprintf :: "string \<Rightarrow> string list \<Rightarrow> string"

text \<open>
  Modelled from the spec: \<^verbatim>\<open>util.ReplaceIfMatch\<close> (package pkg/util is not among the
  sources). The spec: "replace every occurrence of each \<^verbatim>\<open>SensitiveMatch.Unmasked\<close>
  substring within that failure's text with its \<^verbatim>\<open>Masked\<close> counterpart".
\<close>

definition ReplaceIfMatch :: "string \<Rightarrow> string \<Rightarrow> string \<Rightarrow> string" where
  "ReplaceIfMatch text pattern replacement =
     (if Contains text pattern then ReplaceAll text pattern replacement else text)"

text \<open>What \<^verbatim>\<open>color.Red\<close> prints: the two diagnostics of the cache.\<close>

datatype diagnostic = DecodeFailed | StoreFailed err

subsection \<open>The Analysis struct\<close>

record analysis =
  Filters :: "string list"
  Language :: string
  AIClient :: ai_client
  PromptMap :: "string \<rightharpoonup> string"
  Results :: "result list"
  Errors :: "string list"
  Cache :: cache
  MaxConcurrency :: int
  WithDoc :: bool
  WithStats :: bool
  Stats :: "analysis_stats list"
  Console :: "diagnostic list"

subsection \<open>getAIResultForSanitizedFailures\<close>

text \<open>Line 521: the key of the request in the cache.\<close>

definition cache_key :: "ai_env \<Rightarrow> analysis \<Rightarrow> string list \<Rightarrow> string" where
  "cache_key env a texts =
     GetCacheKey env (GetName (AIClient a)) (Language a) (Join texts '' '')"

text \<open>
  Lines 523-536, the look into the cache, with its three ways out: the decoded payload
  is returned (\<open>Hit\<close>), the error of \<^verbatim>\<open>Load\<close> is returned (\<open>LoadFailed\<close>), or
  control falls through to the remote call (\<open>Miss\<close>, with what was printed on the way).
\<close>

datatype lookup = Hit string | LoadFailed err | Miss "diagnostic list"

definition cache_lookup :: "cache \<Rightarrow> string \<Rightarrow> lookup" where
  "cache_lookup c cacheKey =
     (if \<not> IsCacheDisabled c \<and> Exists c cacheKey
      then (case Load c cacheKey of
              Inl e \<Rightarrow> LoadFailed e
            | Inr response \<Rightarrow>
                if response \<noteq> []
                then (case DecodeString response of
                        Some output \<Rightarrow> Hit output
                      | None \<Rightarrow> Miss [DecodeFailed])
                else Miss [])
      else Miss [])"

text \<open>Lines 539-542: the prompt sent to the completion client.\<close>

definition render_prompt :: "ai_env \<Rightarrow> analysis \<Rightarrow> string list \<Rightarrow> string \<Rightarrow> string" where
  "render_prompt env a texts promptTmpl =
     (let inputKey = Join texts '' '';
          prompt = Sprintf env (TrimSpace env promptTmpl) [Language a, inputKey]
      in if GetName (AIClient a) = CustomRestClientName env
         then Sprintf env (rawPrompt env) [Language a, inputKey, prompt]
         else prompt)"

text \<open>Lines 543-551: call the completion client and store the encoded answer; an error
  of \<^verbatim>\<open>Store\<close> is printed only.\<close>

definition remote_completion ::
    "ai_env \<Rightarrow> analysis \<Rightarrow> string list \<Rightarrow> string \<Rightarrow> (err + string) \<times> analysis" where
  "remote_completion env a texts promptTmpl =
     (case GetCompletion (AIClient a) (render_prompt env a texts promptTmpl) of
        (Inl e, cl) \<Rightarrow> (Inl e, a\<lparr>AIClient := cl\<rparr>)
      | (Inr response, cl) \<Rightarrow>
          (case Store (Cache a) (cache_key env a texts) (EncodeToString response) of
             (Some e, c) \<Rightarrow>
               (Inr response,
                a\<lparr>AIClient := cl, Cache := c, Console := Console a @ [StoreFailed e]\<rparr>)
           | (None, c) \<Rightarrow> (Inr response, a\<lparr>AIClient := cl, Cache := c\<rparr>)))"

definition getAIResultForSanitizedFailures ::
    "ai_env \<Rightarrow> analysis \<Rightarrow> string list \<Rightarrow> string \<Rightarrow> (err + string) \<times> analysis" where
  "getAIResultForSanitizedFailures env a texts promptTmpl =
     (case cache_lookup (Cache a) (cache_key env a texts) of
        Hit output \<Rightarrow> (Inr output, a)
      | LoadFailed e \<Rightarrow> (Inl e, a)
      | Miss printed \<Rightarrow>
          remote_completion env (a\<lparr>Console := Console a @ printed\<rparr>) texts promptTmpl)"

subsection \<open>GetAIResults\<close>

text \<open>Lines 470-477: the texts of the failures of one result, anonymized on demand.\<close>

definition mask_text :: "failure \<Rightarrow> string" where
  "mask_text failure =
     fold (\<lambda>s text. ReplaceIfMatch text (Unmasked s) (Masked s)) (Sensitive failure)
       (Text failure)"

definition failure_texts :: "bool \<Rightarrow> result \<Rightarrow> string list" where
  "failure_texts anonymize analysis =
     map (\<lambda>failure. if anonymize then mask_text failure else Text failure) (Error analysis)"

text \<open>Lines 500-506: the masked substrings of the answer are put back.\<close>

definition unmask_result :: "result \<Rightarrow> string \<Rightarrow> string" where
  "unmask_result analysis result =
     fold (\<lambda>failure result.
             fold (\<lambda>s result. ReplaceAll result (Masked s) (Unmasked s))
               (Sensitive failure) result)
       (Error analysis) result"

text \<open>
  \<open>substituted_only s old new\<close>: in the text \<open>replace_occurrences s old new\<close>, no
  occurrence of \<open>new\<close> begins at a character that is kept from \<open>s\<close>. The function walks
  \<open>s\<close> as \<open>replace_occurrences\<close> does and looks at the new text from each kept character
  on. It is used to state when the masking can be undone.
\<close>

fun substituted_only :: "string \<Rightarrow> string \<Rightarrow> string \<Rightarrow> bool" where
  "substituted_only [] old new = True"
| "substituted_only (c # cs) old new =
     (if old \<noteq> [] \<and> prefix old (c # cs)
      then substituted_only (drop (length old) (c # cs)) old new
      else \<not> prefix new (c # replace_occurrences cs old new) \<and> substituted_only cs old new)"

text \<open>Lines 479-484: a lookup of a key the Go map does not hold gives the empty string.\<close>

definition prompt_template :: "analysis \<Rightarrow> result \<Rightarrow> string" where
  "prompt_template a analysis =
     (case PromptMap a (Kind analysis) of
        Some prompt \<Rightarrow> prompt
      | None \<Rightarrow> (case PromptMap a ''default'' of Some prompt \<Rightarrow> prompt | None \<Rightarrow> []))"

text \<open>Lines 493-497: the error \<^verbatim>\<open>GetAIResults\<close> returns for an error of the step.\<close>

definition provider_error :: "analysis \<Rightarrow> err \<Rightarrow> err" where
  "provider_error a e =
     (if Contains e ''status code: 429''
      then ''exhausted API quota for AI provider '' @ GetName (AIClient a) @ '': '' @ e
      else ''failed while calling AI provider '' @ GetName (AIClient a) @ '': '' @ e)"

text \<open>
  The loop of lines 463-513 over the results from \<open>index\<close> on: \<open>todo\<close> is the rest of
  the slice the \<^verbatim>\<open>range\<close> clause reads. The first error ends the loop. The progress bar
  and the \<^verbatim>\<open>output\<close> argument, which only steers the bar, are left out.
\<close>

fun explain_from :: "ai_env \<Rightarrow> bool \<Rightarrow> nat \<Rightarrow> result list \<Rightarrow> analysis \<Rightarrow> err option \<times> analysis" where
  "explain_from env anonymize index [] a = (None, a)"
| "explain_from env anonymize index (analysis # todo) a =
     (case getAIResultForSanitizedFailures env a (failure_texts anonymize analysis)
             (prompt_template a analysis) of
        (Inl e, a') \<Rightarrow> (Some (provider_error a' e), a')
      | (Inr result, a') \<Rightarrow>
          (let result = (if anonymize then unmask_result analysis result else result);
               analysis = analysis\<lparr>Details := result\<rparr>
           in explain_from env anonymize (Suc index) todo
                (a'\<lparr>Results := (Results a')[index := analysis]\<rparr>)))"

definition GetAIResults :: "ai_env \<Rightarrow> analysis \<Rightarrow> bool \<Rightarrow> err option \<times> analysis" where
  "GetAIResults env a anonymize =
     (if Results a = [] then (None, a)
      else explain_from env anonymize 0 (Results a) a)"

subsection \<open>executeAnalyzer\<close>

text \<open>
  An analyzer (\<^verbatim>\<open>common.IAnalyzer\<close>) is taken as what its \<^verbatim>\<open>Analyze\<close> returns for the
  configuration of the run, results and error, and the time the call takes, which
  \<^verbatim>\<open>time.Since\<close> measures.
\<close>

record analyzer =
  Analyze :: "result list \<times> err option"
  elapsed :: nat

text \<open>
  Lines 396-446, the part under the mutex: the statistics, then the error or else the
  results. The receive from the semaphore at the end is a step of the launch loop below.
\<close>

definition executeAnalyzer :: "analysis \<Rightarrow> analyzer \<Rightarrow> string \<Rightarrow> analysis" where
  "executeAnalyzer a analyzer filter_name =
     (let (results, err) = Analyze analyzer;
          elapsedTime = (if WithStats a then elapsed analyzer else 0);
          stat = \<lparr>Analyzer = filter_name, DurationTime = elapsedTime\<rparr>;
          a = (if WithStats a then a\<lparr>Stats := Stats a @ [stat]\<rparr> else a)
      in case err of
           Some e \<Rightarrow> a\<lparr>Errors := Errors a @ [''['' @ filter_name @ ''] '' @ e]\<rparr>
         | None \<Rightarrow> a\<lparr>Results := Results a @ results\<rparr>)"

subsection \<open>RunAnalysis\<close>

definition maxAllowedConcurrency :: int where
  "maxAllowedConcurrency = 100"

text \<open>Lines 339-345: the value handed to \<^verbatim>\<open>make(chan struct{}, concurrency)\<close>.\<close>

definition concurrency_limit :: "int \<Rightarrow> int" where
  "concurrency_limit c =
     (if c \<le> 0 then 10
      else if c > maxAllowedConcurrency then maxAllowedConcurrency
      else c)"

text \<open>The capacity of the channel. \<^verbatim>\<open>MaxConcurrency\<close> is a Go \<^verbatim>\<open>int\<close>; it is only
  compared with constants, so its width plays no part and it is an \<^typ>\<open>int\<close> here.\<close>

definition semaphore_capacity :: "analysis \<Rightarrow> nat" where
  "semaphore_capacity a = nat (concurrency_limit (MaxConcurrency a))"

text \<open>
  What \<^verbatim>\<open>RunAnalysis\<close> reads from outside: the active filters of the configuration,
  the two maps of \<^verbatim>\<open>analyzer.GetAnalyzerMap()\<close> and the error of the OpenAPI request,
  if it fails. The map of the core analyzers is a list in the order in which the
  \<^verbatim>\<open>range\<close> clause happens to visit it.
\<close>

record run_env =
  activeFilters :: "string list"
  coreAnalyzerMap :: "(string \<times> analyzer) list"
  analyzerMap :: "string \<rightharpoonup> analyzer"
  OpenAPISchema :: "err option"

text \<open>The three loops of lines 351-393.\<close>

datatype selection = AllCore | ExplicitFilters | ActiveFilters

definition select_analyzers ::
    "run_env \<Rightarrow> analysis \<Rightarrow> selection \<times> (string \<times> analyzer option) list" where
  "select_analyzers env a =
     (if Filters a = [] \<and> activeFilters env = []
      then (AllCore, map (\<lambda>(name, analyzer). (name, Some analyzer)) (coreAnalyzerMap env))
      else if Filters a \<noteq> []
      then (ExplicitFilters, map (\<lambda>f. (f, analyzerMap env f)) (Filters a))
      else (ActiveFilters, map (\<lambda>f. (f, analyzerMap env f)) (activeFilters env)))"

text \<open>Line 375.\<close>

definition unknown_filter :: "string \<Rightarrow> string" where
  "unknown_filter f =
     CHR 0x22 # f @ CHR 0x22 # '' filter does not exist. Please run k8sgpt filters list.''"

text \<open>
  The state of a run: the names the loop has still to visit, each with its analyzer if
  the map has one; the goroutines that were started and have not yet gone through
  \<^verbatim>\<open>executeAnalyzer\<close>; the number of values in the semaphore channel; the names for
  which a goroutine was started, in that order; and the \<^verbatim>\<open>Analysis\<close> value.
\<close>

record run_state =
  pending :: "(string \<times> analyzer option) list"
  inflight :: "(string \<times> analyzer) list"
  tokens :: nat
  started :: "string list"
  store :: analysis

text \<open>
  The goroutines interleave. A run is a sequence of events: \<open>Submit\<close> is one turn of the
  loop, which sends to the semaphore and starts a goroutine, or handles a name the map
  does not hold; \<open>Finish k\<close> is the critical section of the \<open>k\<close>-th goroutine in flight,
  with its receive from the semaphore. An event that cannot happen in a state, such as
  a send to a full channel, gives \<open>None\<close>.
\<close>

datatype event = Submit | Finish nat

fun run_step :: "nat \<Rightarrow> selection \<Rightarrow> event \<Rightarrow> run_state \<Rightarrow> run_state option" where
  "run_step cap sel Submit s =
     (case pending s of
        [] \<Rightarrow> None
      | (f, Some analyzer) # rest \<Rightarrow>
          if tokens s < cap
          then Some (s\<lparr>pending := rest, inflight := inflight s @ [(f, analyzer)],
                       tokens := Suc (tokens s), started := started s @ [f]\<rparr>)
          else None
      | (f, None) # rest \<Rightarrow>
          if sel = ExplicitFilters
          then Some (s\<lparr>pending := rest,
                       store := (store s)\<lparr>Errors := Errors (store s) @ [unknown_filter f]\<rparr>\<rparr>)
          else Some (s\<lparr>pending := rest\<rparr>))"
| "run_step cap sel (Finish k) s =
     (if k < length (inflight s) \<and> 0 < tokens s
      then Some (s\<lparr>inflight := take k (inflight s) @ drop (Suc k) (inflight s),
                   tokens := tokens s - 1,
                   store := executeAnalyzer (store s) (snd (inflight s ! k))
                              (fst (inflight s ! k))\<rparr>)
      else None)"

fun run_events :: "nat \<Rightarrow> selection \<Rightarrow> event list \<Rightarrow> run_state \<Rightarrow> run_state option" where
  "run_events cap sel [] s = Some s"
| "run_events cap sel (ev # evs) s =
     (case run_step cap sel ev s of
        None \<Rightarrow> None
      | Some s' \<Rightarrow> run_events cap sel evs s')"

text \<open>\<^verbatim>\<open>wg.Wait()\<close> returns when the loop is through and no goroutine is left.\<close>

definition finished :: "run_state \<Rightarrow> bool" where
  "finished s = (pending s = [] \<and> inflight s = [])"

text \<open>Lines 314-327: the error of the OpenAPI request is recorded.\<close>

definition fetch_docs :: "run_env \<Rightarrow> analysis \<Rightarrow> analysis" where
  "fetch_docs env a =
     (if WithDoc a
      then (case OpenAPISchema env of
              Some e \<Rightarrow> a\<lparr>Errors := Errors a @ [''[KubernetesDoc] '' @ e]\<rparr>
            | None \<Rightarrow> a)
      else a)"

definition initial_state :: "run_env \<Rightarrow> analysis \<Rightarrow> run_state" where
  "initial_state env a =
     \<lparr>pending = snd (select_analyzers env a), inflight = [], tokens = 0, started = [],
      store = fetch_docs env a\<rparr>"

text \<open>
  \<^verbatim>\<open>RunAnalysis\<close> under a schedule of events: the state in which it returns, or \<open>None\<close>
  if the events are not a complete run of it.
\<close>

definition run_analysis :: "run_env \<Rightarrow> analysis \<Rightarrow> event list \<Rightarrow> run_state option" where
  "run_analysis env a schedule =
     (case run_events (semaphore_capacity a) (fst (select_analyzers env a)) schedule
             (initial_state env a) of
        None \<Rightarrow> None
      | Some s \<Rightarrow> if finished s then Some s else None)"

definition RunAnalysis :: "run_env \<Rightarrow> analysis \<Rightarrow> event list \<Rightarrow> analysis option" where
  "RunAnalysis env a schedule = map_option store (run_analysis env a schedule)"

subsection \<open>RunCustomAnalysis\<close>

text \<open>
  A custom analyzer of the configuration: its name, the error of
  \<^verbatim>\<open>custom.NewClient\<close> for its connection, if the client cannot be made, and what the
  client's \<^verbatim>\<open>Run\<close> returns.
\<close>

record custom_analyzer =
  Name :: string
  NewClient :: "err option"
  Run :: "result \<times> err option"

text \<open>
  Lines 266-300, the body of a goroutine, up to its receive from the semaphore. The
  flag tells whether the body comes to that receive: after a failed
  \<^verbatim>\<open>custom.NewClient\<close> it returns before. The body reads the loop variable
  \<^verbatim>\<open>cAnalyzer\<close>, which since Go 1.22 is a variable of its own in every turn of the
  loop, so it is the analyzer the goroutine was started for.
\<close>

definition custom_goroutine :: "analysis \<Rightarrow> custom_analyzer \<Rightarrow> analysis \<times> bool" where
  "custom_goroutine a cAnalyzer =
     (case NewClient cAnalyzer of
        Some e \<Rightarrow>
          (a\<lparr>Errors := Errors a @
                [''Client creation error for '' @ Name cAnalyzer @ '' analyzer'']\<rparr>, False)
      | None \<Rightarrow>
          (let (result, err) = Run cAnalyzer;
               result = (if Kind result = [] then result\<lparr>Kind := Name cAnalyzer\<rparr>
                         else result)
           in case err of
                Some e \<Rightarrow> (a\<lparr>Errors := Errors a @ [''['' @ Name cAnalyzer @ ''] '' @ e]\<rparr>, True)
              | None \<Rightarrow> (a\<lparr>Results := Results a @ [result]\<rparr>, True)))"

text \<open>
  The state of a run of the custom analyzers: those the loop has still to start, the
  goroutines that have not yet run their body, the number of goroutines that wait at
  their receive, the number of values in the channel, and the \<^verbatim>\<open>Analysis\<close> value.
\<close>

record custom_state =
  c_pending :: "custom_analyzer list"
  c_inflight :: "custom_analyzer list"
  c_receiving :: nat
  c_tokens :: nat
  c_store :: analysis

text \<open>
  \<open>CSubmit\<close> is the send of line 264 with the start of the goroutine: the value goes
  into the buffer of the channel if that has room; a channel of capacity 0 has no
  buffer, and the send needs a goroutine that waits at its receive. \<open>CRun k\<close> is the
  body of the \<open>k\<close>-th goroutine, \<open>CReceive\<close> the receive of line 300 from the buffer.
\<close>

datatype custom_event = CSubmit | CRun nat | CReceive

fun custom_step :: "nat \<Rightarrow> custom_event \<Rightarrow> custom_state \<Rightarrow> custom_state option" where
  "custom_step cap CSubmit s =
     (case c_pending s of
        [] \<Rightarrow> None
      | cAnalyzer # rest \<Rightarrow>
          if c_tokens s < cap
          then Some (s\<lparr>c_pending := rest, c_inflight := c_inflight s @ [cAnalyzer],
                       c_tokens := Suc (c_tokens s)\<rparr>)
          else if cap = 0 \<and> 0 < c_receiving s
          then Some (s\<lparr>c_pending := rest, c_inflight := c_inflight s @ [cAnalyzer],
                       c_receiving := c_receiving s - 1\<rparr>)
          else None)"
| "custom_step cap (CRun k) s =
     (if k < length (c_inflight s)
      then (case custom_goroutine (c_store s) (c_inflight s ! k) of
              (a, receives) \<Rightarrow>
                Some (s\<lparr>c_inflight := take k (c_inflight s) @ drop (Suc k) (c_inflight s),
                         c_receiving := (if receives then Suc (c_receiving s)
                                         else c_receiving s),
                         c_store := a\<rparr>))
      else None)"
| "custom_step cap CReceive s =
     (if 0 < c_receiving s \<and> 0 < c_tokens s
      then Some (s\<lparr>c_receiving := c_receiving s - 1, c_tokens := c_tokens s - 1\<rparr>)
      else None)"

fun custom_events ::
    "nat \<Rightarrow> custom_event list \<Rightarrow> custom_state \<Rightarrow> custom_state option" where
  "custom_events cap [] s = Some s"
| "custom_events cap (ev # evs) s =
     (case custom_step cap ev s of
        None \<Rightarrow> None
      | Some s' \<Rightarrow> custom_events cap evs s')"

definition custom_finished :: "custom_state \<Rightarrow> bool" where
  "custom_finished s = (c_pending s = [] \<and> c_inflight s = [] \<and> c_receiving s = 0)"

text \<open>
  \<^verbatim>\<open>RunCustomAnalysis\<close> under a schedule of events. The first argument is what
  \<^verbatim>\<open>viper.UnmarshalKey("custom_analyzers", ...)\<close> gives. \<open>Inl\<close> is a panic:
  \<^verbatim>\<open>make\<close> panics on a negative size. \<open>Inr None\<close> says that the events are not a
  complete run, \<open>Inr (Some a)\<close> that the function returns with \<open>a\<close>.
\<close>

definition RunCustomAnalysis ::
    "err + custom_analyzer list \<Rightarrow> analysis \<Rightarrow> custom_event list \<Rightarrow> err + analysis option" where
  "RunCustomAnalysis customAnalyzers a schedule =
     (case customAnalyzers of
        Inl e \<Rightarrow> (if schedule = [] then Inr (Some (a\<lparr>Errors := Errors a @ [e]\<rparr>)) else Inr None)
      | Inr analyzers \<Rightarrow>
          if MaxConcurrency a < 0 then Inl ''makechan: size out of range''
          else (case custom_events (nat (MaxConcurrency a)) schedule
                       \<lparr>c_pending = analyzers, c_inflight = [], c_receiving = 0,
                        c_tokens = 0, c_store = a\<rparr> of
                  None \<Rightarrow> Inr None
                | Some s \<Rightarrow> if custom_finished s then Inr (Some (c_store s)) else Inr None))"

subsection \<open>What a task leaves in the error log and in the results\<close>







subsection \<open>Example values\<close>

text \<open>Concrete collaborators and a concrete \<^verbatim>\<open>Analysis\<close> value, on which the
  theorems below are instantiated.\<close>

definition example_env :: ai_env where
  "example_env =
     \<lparr>GetCacheKey = (\<lambda>provider language input. provider @ ''-'' @ language @ ''-'' @ input),
      CustomRestClientName = ''customrest'',
      rawPrompt = ''raw '',
      TrimSpace = (\<lambda>s. s),
      Sprintf = (\<lambda>format args. format @ concat args)\<rparr>"

definition example_client :: ai_client where
  "example_client =
     \<lparr>GetName = ''openai'', respond = (\<lambda>earlier prompt. Inr ''restart the pod''),
      prompts = []\<rparr>"

definition example_cache :: cache where
  "example_cache =
     \<lparr>disabled = False, entries = Map.empty, load_error = Map.empty,
      store_error = Map.empty\<rparr>"

definition example_result :: result where
  "example_result =
     \<lparr>Kind = ''Pod'', Error = [\<lparr>Text = ''pod web is crashing'', Sensitive = []\<rparr>],
      Details = []\<rparr>"

definition example_analysis :: analysis where
  "example_analysis =
     \<lparr>Filters = [], Language = ''english'', AIClient = example_client,
      PromptMap = [''default'' \<mapsto> ''explain: ''], Results = [example_result], Errors = [],
      Cache = example_cache, MaxConcurrency = 10, WithDoc = False, WithStats = False,
      Stats = [], Console = []\<rparr>"

text \<open>The key of the request for \<open>example_result\<close> under \<open>example_env\<close>.\<close>

definition example_key :: string where
  "example_key = ''openai-english-pod web is crashing''"

text \<open>Caches whose entry for that key is empty, cannot be loaded, or is not base64;
  and a cache that cannot store.\<close>

definition empty_payload_analysis :: analysis where
  "empty_payload_analysis =
     example_analysis\<lparr>Cache := example_cache\<lparr>entries := [example_key \<mapsto> []]\<rparr>\<rparr>"




text \<open>Completion clients: one that answers with the empty string, one that is out of
  quota, one that cannot be reached, and one that answers the first prompt only.\<close>

definition silent_analysis :: analysis where
  "silent_analysis =
     example_analysis\<lparr>AIClient := example_client\<lparr>respond := (\<lambda>earlier prompt. Inr [])\<rparr>\<rparr>"

definition quota_analysis :: analysis where
  "quota_analysis =
     example_analysis\<lparr>AIClient := example_client
       \<lparr>respond := (\<lambda>earlier prompt. Inl ''error, status code: 429, message: slow down'')\<rparr>\<rparr>"

definition unreachable_analysis :: analysis where
  "unreachable_analysis =
     example_analysis\<lparr>AIClient := example_client
       \<lparr>respond := (\<lambda>earlier prompt. Inl ''connection refused'')\<rparr>\<rparr>"

definition second_result :: result where
  "second_result =
     \<lparr>Kind = ''Service'', Error = [\<lparr>Text = ''service has no endpoints'', Sensitive = []\<rparr>],
      Details = []\<rparr>"

definition one_answer_analysis :: analysis where
  "one_answer_analysis =
     example_analysis
       \<lparr>AIClient := example_client
          \<lparr>respond := (\<lambda>earlier prompt.
             if earlier = [] then Inr ''restart the pod'' else Inl ''connection refused'')\<rparr>,
        Results := [example_result, second_result]\<rparr>"










text \<open>A custom analyzer whose client can be made and whose run succeeds.\<close>

definition example_plugin :: custom_analyzer where
  "example_plugin =
     \<lparr>Name = ''host-analyzer'', NewClient = None, Run = (second_result\<lparr>Kind := []\<rparr>, None)\<rparr>"

text \<open>A custom analyzer whose client cannot be made.\<close>

definition broken_plugin :: custom_analyzer where
  "broken_plugin =
     \<lparr>Name = ''broken'', NewClient = Some ''dial tcp: connection refused'',
      Run = (example_result, None)\<rparr>"

section \<open>Properties\<close>

subsection \<open>Base64: decoding inverts encoding\<close>

lemma sextet_bounds:
  fixes x y z :: nat
  assumes "x < 256" "y < 256" "z < 256"
  shows "x div 4 < 64 \<and> (x mod 4) * 16 + y div 16 < 64 \<and> (y mod 16) * 4 + z div 64 < 64
    \<and> z mod 64 < 64 \<and> (x mod 4) * 16 < 64 \<and> (y mod 16) * 4 < 64"
proof -
  have a: "x mod 4 < 4" "y mod 16 < 16" by simp_all
  have b: "y div 16 < 16" "z div 64 < 4" "x div 4 < 64" using assms by simp_all
  have "(x mod 4) * 16 + y div 16 < 64" using a b by linarith
  moreover have "(y mod 16) * 4 + z div 64 < 64" using a b by linarith
  moreover have "(x mod 4) * 16 < 64" using a by linarith
  moreover have "(y mod 16) * 4 < 64" using a by linarith
  ultimately show ?thesis using b by simp
qed

lemma octets:
  fixes x y z :: nat
  assumes "y < 256" "z < 256"
  shows "x div 4 * 4 + ((x mod 4) * 16 + y div 16) div 16 = x
    \<and> (((x mod 4) * 16 + y div 16) mod 16) * 16 + ((y mod 16) * 4 + z div 64) div 4 = y
    \<and> (((y mod 16) * 4 + z div 64) mod 4) * 64 + z mod 64 = z
    \<and> x div 4 * 4 + ((x mod 4) * 16) div 16 = x
    \<and> (((x mod 4) * 16 + y div 16) mod 16) * 16 + ((y mod 16) * 4) div 4 = y"
proof -
  have b: "y div 16 < 16" "z div 64 < 4" using assms by simp_all
  have c: "y div 16 div 16 = 0" "z div 64 div 4 = 0" "y div 16 mod 16 = y div 16"
    "z div 64 mod 4 = z div 64" using b by simp_all
  show ?thesis using c by simp
qed

lemma b64_index_char: "n < 64 \<Longrightarrow> b64_index (b64_char n) = Some n"
proof -
  have "\<forall>i\<in>{0..<64}. b64_index (b64_char i) = Some i" by code_simp
  then show "n < 64 \<Longrightarrow> b64_index (b64_char n) = Some n" by simp
qed

lemma b64_char_plain:
  "n < 64 \<Longrightarrow> b64_char n \<noteq> CHR ''='' \<and> b64_char n \<noteq> CHR 0x0D \<and> b64_char n \<noteq> CHR 0x0A"
proof -
  have "\<forall>i\<in>{0..<64}. b64_char i \<noteq> CHR ''='' \<and> b64_char i \<noteq> CHR 0x0D \<and> b64_char i \<noteq> CHR 0x0A"
    by code_simp
  then show "n < 64 \<Longrightarrow> b64_char n \<noteq> CHR ''='' \<and> b64_char n \<noteq> CHR 0x0D \<and> b64_char n \<noteq> CHR 0x0A"
    by simp
qed

lemma quantum3_encoded:
  "quantum3 (b64_char (of_char a div 4)) (b64_char ((of_char a mod 4) * 16 + of_char b div 16))
     (b64_char ((of_char b mod 16) * 4 + of_char c div 64)) (b64_char (of_char c mod 64))
   = Some [a, b, c]"
  using sextet_bounds [of "of_char a" "of_char b" "of_char c"]
    octets [of "of_char b" "of_char c" "of_char a"]
  by (simp add: quantum3_def b64_index_char)

lemma quantum2_encoded:
  "quantum2 (b64_char (of_char a div 4)) (b64_char ((of_char a mod 4) * 16 + of_char b div 16))
     (b64_char ((of_char b mod 16) * 4)) = Some [a, b]"
  using sextet_bounds [of "of_char a" "of_char b" "of_char b"]
    octets [of "of_char b" "of_char b" "of_char a"]
  by (simp add: quantum2_def b64_index_char)

lemma quantum1_encoded:
  "quantum1 (b64_char (of_char a div 4)) (b64_char ((of_char a mod 4) * 16)) = Some [a]"
  using sextet_bounds [of "of_char a" "of_char a" "of_char a"]
    octets [of "of_char a" "of_char a" "of_char a"]
  by (simp add: quantum1_def b64_index_char)

lemma EncodeToString_empty: "EncodeToString s = [] \<longleftrightarrow> s = []"
  by (induction s rule: EncodeToString.induct) (simp_all add: Let_def)

lemma decode_quanta_group:
  assumes "quantum3 p q r s = Some bytes" "r \<noteq> CHR ''=''" "s \<noteq> CHR ''=''"
    "decode_quanta rest = Some others"
  shows "decode_quanta (p # q # r # s # rest) = Some (bytes @ others)"
  using assms by (cases rest) simp_all

lemma decode_quanta_encoded: "decode_quanta (EncodeToString s) = Some s"
proof (induction s rule: EncodeToString.induct)
  case 1
  show ?case by simp
next
  case (2 a)
  show ?case
    using sextet_bounds [of "of_char a" "of_char a" "of_char a"] b64_char_plain by (simp add: Let_def quantum1_encoded)
next
  case (3 a b)
  show ?case
    using sextet_bounds [of "of_char b" "of_char b" "of_char b"]
      b64_char_plain
    by (simp add: Let_def quantum2_encoded)
next
  case (4 a b c rest)
  have "b64_char ((of_char b mod 16) * 4 + of_char c div 64) \<noteq> CHR ''=''"
    "b64_char (of_char c mod 64) \<noteq> CHR ''=''"
    using sextet_bounds [of "of_char a" "of_char b" "of_char c"] b64_char_plain
    by simp_all
  with 4 show ?case
    using decode_quanta_group [OF quantum3_encoded [of a b c]]
    by (simp add: Let_def)
qed

lemma EncodeToString_no_newline:
  "filter (\<lambda>c. c \<noteq> CHR 0x0D \<and> c \<noteq> CHR 0x0A) (EncodeToString s) = EncodeToString s"
proof (induction s rule: EncodeToString.induct)
  case 1
  show ?case by simp
next
  case (2 a)
  show ?case
    using sextet_bounds [of "of_char a" "of_char a" "of_char a"] b64_char_plain
    by (simp add: Let_def)
next
  case (3 a b)
  show ?case
    using sextet_bounds [of "of_char a" "of_char b" "of_char b"] b64_char_plain
    by (simp add: Let_def)
next
  case (4 a b c rest)
  then show ?case
    using sextet_bounds [of "of_char a" "of_char b" "of_char c"] b64_char_plain
    by (simp add: Let_def)
qed

lemma DecodeString_EncodeToString: "DecodeString (EncodeToString s) = Some s"
  by (simp add: DecodeString_def EncodeToString_no_newline decode_quanta_encoded)


subsection \<open>The concurrency limit\<close>

lemma concurrency_limit_range: "1 \<le> concurrency_limit c \<and> concurrency_limit c \<le> 100"
  by (simp add: concurrency_limit_def maxAllowedConcurrency_def)

text \<open>
  C3: before the semaphore of \<^verbatim>\<open>RunAnalysis\<close> is made, the configured limit \<open>c\<close> is
  clamped: a limit \<open>c \<le> 0\<close> gives the capacity 10, a limit above 100 gives 100, and a
  limit between 1 and 100 is used as it is.
\<close>

theorem semaphore_capacity_clamped:
  "(c \<le> 0 \<longrightarrow> semaphore_capacity (a\<lparr>MaxConcurrency := c\<rparr>) = 10) \<and>
   (100 < c \<longrightarrow> semaphore_capacity (a\<lparr>MaxConcurrency := c\<rparr>) = 100) \<and>
   (0 < c \<and> c \<le> 100 \<longrightarrow> semaphore_capacity (a\<lparr>MaxConcurrency := c\<rparr>) = nat c)"
  by (simp add: semaphore_capacity_def concurrency_limit_def maxAllowedConcurrency_def)

theorem semaphore_capacity_clamped_witness:
  "semaphore_capacity (example_analysis\<lparr>MaxConcurrency := - 3\<rparr>) = 10 \<and>
   semaphore_capacity (example_analysis\<lparr>MaxConcurrency := 250\<rparr>) = 100 \<and>
   semaphore_capacity (example_analysis\<lparr>MaxConcurrency := 42\<rparr>) = 42"
  using semaphore_capacity_clamped [of "- 3" example_analysis]
    semaphore_capacity_clamped [of 250 example_analysis]
    semaphore_capacity_clamped [of 42 example_analysis]
  by simp

subsection \<open>The explanation step\<close>


lemmas example_defs = example_env_def example_client_def example_cache_def example_result_def
  example_analysis_def example_key_def

lemmas step_defs = getAIResultForSanitizedFailures_def cache_lookup_def cache_key_def
  IsCacheDisabled_def Exists_def Load_def Store_def remote_completion_def GetCompletion_def
  render_prompt_def failure_texts_def prompt_template_def provider_error_def

lemma remote_completion_outcome:
  "fst (remote_completion env a texts promptTmpl)
     = respond (AIClient a) (prompts (AIClient a)) (render_prompt env a texts promptTmpl)"
  by (simp add: remote_completion_def GetCompletion_def split: sum.splits prod.splits option.splits)

lemma remote_completion_prompts:
  "prompts (AIClient (snd (remote_completion env a texts promptTmpl)))
     = prompts (AIClient a) @ [render_prompt env a texts promptTmpl]"
  by (simp add: remote_completion_def GetCompletion_def split: sum.splits prod.splits option.splits)

lemma render_prompt_Console [simp]:
  "render_prompt env (a\<lparr>Console := c\<rparr>) texts promptTmpl = render_prompt env a texts promptTmpl"
  by (simp add: render_prompt_def Let_def)

lemma cache_key_Console [simp]:
  "cache_key env (a\<lparr>Console := c\<rparr>) texts = cache_key env a texts"
  by (simp add: cache_key_def)

lemma getAI_miss:
  assumes "cache_lookup (Cache a) (cache_key env a texts) = Miss printed"
  shows "fst (getAIResultForSanitizedFailures env a texts promptTmpl)
      = respond (AIClient a) (prompts (AIClient a)) (render_prompt env a texts promptTmpl)"
    and "prompts (AIClient (snd (getAIResultForSanitizedFailures env a texts promptTmpl)))
      = prompts (AIClient a) @ [render_prompt env a texts promptTmpl]"
  using assms
  by (simp_all add: getAIResultForSanitizedFailures_def remote_completion_outcome
      remote_completion_prompts)




lemma getAI_name [simp]:
  "GetName (AIClient (snd (getAIResultForSanitizedFailures env a texts promptTmpl)))
     = GetName (AIClient a)"
  by (simp add: getAIResultForSanitizedFailures_def remote_completion_def GetCompletion_def
        split: sum.splits prod.splits option.splits lookup.splits)

lemma getAI_Results [simp]:
  "Results (snd (getAIResultForSanitizedFailures env a texts promptTmpl)) = Results a"
  by (simp add: getAIResultForSanitizedFailures_def remote_completion_def GetCompletion_def
        split: sum.splits prod.splits option.splits lookup.splits)

lemma cache_lookup_cases:
  obtains (hit) payload out where "cache_lookup c key = Hit out" "\<not> disabled c"
      "entries c key = Some payload" "DecodeString payload = Some out"
  | (failed) e where "cache_lookup c key = LoadFailed e"
  | (miss) printed where "cache_lookup c key = Miss printed"
proof (cases "cache_lookup c key")
  case (Hit out)
  then obtain payload where "\<not> disabled c" "entries c key = Some payload"
      "DecodeString payload = Some out"
    by (auto simp add: cache_lookup_def IsCacheDisabled_def Exists_def Load_def
        split: if_splits sum.splits option.splits)
  with Hit show ?thesis by (rule hit)
next
  case (LoadFailed e)
  then show ?thesis by (rule failed)
next
  case (Miss printed)
  then show ?thesis by (rule miss)
qed

lemma cache_lookup_stored:
  assumes "\<not> disabled c" "load_error c key = None" "entries c key = Some (EncodeToString response)"
    "response \<noteq> []"
  shows "cache_lookup c key = Hit response"
  using assms
  by (simp add: cache_lookup_def IsCacheDisabled_def Exists_def Load_def
      EncodeToString_empty DecodeString_EncodeToString)

lemma getAI_hit:
  "cache_lookup (Cache a) (cache_key env a texts) = Hit out
   \<Longrightarrow> getAIResultForSanitizedFailures env a texts promptTmpl = (Inr out, a)"
  by (simp add: getAIResultForSanitizedFailures_def)

lemma explain_from_append:
  "explain_from env anonymize i (xs @ ys) a =
     (case explain_from env anonymize i xs a of
        (Some e, a') \<Rightarrow> (Some e, a')
      | (None, a') \<Rightarrow> explain_from env anonymize (i + length xs) ys a')"
  by (induction xs arbitrary: i a) (auto split: prod.splits sum.splits option.splits)

lemma explain_from_length:
  "length (Results (snd (explain_from env anonymize i xs a))) = length (Results a)"
proof (induction xs arbitrary: i a)
  case Nil
  show ?case by simp
next
  case (Cons r xs)
  obtain res a' where g: "getAIResultForSanitizedFailures env a (failure_texts anonymize r)
      (prompt_template a r) = (res, a')"
    by (cases "getAIResultForSanitizedFailures env a (failure_texts anonymize r)
      (prompt_template a r)")
  have "Results a' = Results a"
    using getAI_Results [of env a "failure_texts anonymize r" "prompt_template a r"] g by simp
  then show ?case
    using g Cons.IH by (cases res) (simp_all add: Let_def)
qed

lemma explain_from_outside:
  assumes "j < i \<or> i + length xs \<le> j"
  shows "Results (snd (explain_from env anonymize i xs a)) ! j = Results a ! j"
  using assms
proof (induction xs arbitrary: i a)
  case Nil
  show ?case by simp
next
  case (Cons r xs)
  obtain res a' where g: "getAIResultForSanitizedFailures env a (failure_texts anonymize r)
      (prompt_template a r) = (res, a')"
    by (cases "getAIResultForSanitizedFailures env a (failure_texts anonymize r)
      (prompt_template a r)")
  have same: "Results a' = Results a"
    using getAI_Results [of env a "failure_texts anonymize r" "prompt_template a r"] g by simp
  show ?case
  proof (cases res)
    case (Inl e)
    then show ?thesis using g same by simp
  next
    case (Inr answer)
    have "j < Suc i \<or> Suc i + length xs \<le> j" and "j \<noteq> i"
      using Cons.prems by auto
    then show ?thesis
      using g Inr same Cons.IH [of "Suc i"] by (simp add: Let_def)
  qed
qed

lemma explain_from_inside:
  assumes "fst (explain_from env anonymize i xs a) = None" "i + length xs \<le> length (Results a)"
    "k < length xs"
  shows "\<exists>d. Results (snd (explain_from env anonymize i xs a)) ! (i + k) = (xs ! k)\<lparr>Details := d\<rparr>"
  using assms
proof (induction xs arbitrary: i a k)
  case Nil
  then show ?case by simp
next
  case (Cons r xs)
  obtain res a' where g: "getAIResultForSanitizedFailures env a (failure_texts anonymize r)
      (prompt_template a r) = (res, a')"
    by (cases "getAIResultForSanitizedFailures env a (failure_texts anonymize r)
      (prompt_template a r)")
  have same: "Results a' = Results a"
    using getAI_Results [of env a "failure_texts anonymize r" "prompt_template a r"] g by simp
  show ?case
  proof (cases res)
    case (Inl e)
    then show ?thesis using g Cons.prems by simp
  next
    case (Inr answer)
    define d where "d = (if anonymize then unmask_result r answer else answer)"
    define a'' where "a'' = a'\<lparr>Results := (Results a')[i := r\<lparr>Details := d\<rparr>]\<rparr>"
    have step: "explain_from env anonymize i (r # xs) a = explain_from env anonymize (Suc i) xs a''"
      using g Inr by (simp add: Let_def d_def a''_def)
    have len: "length (Results a'') = length (Results a)"
      by (simp add: a''_def same)
    show ?thesis
    proof (cases k)
      case 0
      have "Results (snd (explain_from env anonymize (Suc i) xs a'')) ! i = Results a'' ! i"
        by (rule explain_from_outside) simp
      moreover have "Results a'' ! i = r\<lparr>Details := d\<rparr>"
        using Cons.prems(2) by (simp add: a''_def same)
      ultimately show ?thesis using step 0 by auto
    next
      case (Suc k')
      have "\<exists>d. Results (snd (explain_from env anonymize (Suc i) xs a'')) ! (Suc i + k')
               = (xs ! k')\<lparr>Details := d\<rparr>"
        using Cons.prems Suc step len by (intro Cons.IH) simp_all
      then show ?thesis using step Suc by simp
    qed
  qed
qed




lemma substituted_only_first_character:
  assumes "new \<noteq> []" "hd new \<notin> set s"
  shows "substituted_only s old new"
  using assms
proof (induction s old new rule: substituted_only.induct)
  case (1 old new)
  show ?case by simp
next
  case (2 c cs old new)
  have "set (drop (length old) (c # cs)) \<subseteq> set (c # cs)"
    by (rule set_drop_subset)
  then have "hd new \<notin> set (drop (length old) (c # cs))" "hd new \<notin> set cs"
    using 2(4) by auto
  moreover have "\<not> prefix new (c # replace_occurrences cs old new)"
    using 2(3,4) by (cases new) auto
  ultimately show ?case
    using 2 by simp
qed

text \<open>
  C10: if the cache reports the key as present and the payload it loads is the empty
  string, the step does not return that payload: it goes on as after a miss, renders the
  prompt and calls the completion client, whose outcome it returns.
\<close>

theorem empty_payload_is_a_miss:
  assumes "\<not> IsCacheDisabled (Cache a)"
    and "Exists (Cache a) (cache_key env a texts)"
    and "Load (Cache a) (cache_key env a texts) = Inr []"
  shows "getAIResultForSanitizedFailures env a texts promptTmpl
           = remote_completion env a texts promptTmpl \<and>
         fst (getAIResultForSanitizedFailures env a texts promptTmpl)
           = respond (AIClient a) (prompts (AIClient a))
               (render_prompt env a texts promptTmpl) \<and>
         prompts (AIClient (snd (getAIResultForSanitizedFailures env a texts promptTmpl)))
           = prompts (AIClient a) @ [render_prompt env a texts promptTmpl]"
proof -
  have miss: "cache_lookup (Cache a) (cache_key env a texts) = Miss []"
    using assms by (simp add: cache_lookup_def)
  then have "getAIResultForSanitizedFailures env a texts promptTmpl
           = remote_completion env a texts promptTmpl"
    by (simp add: getAIResultForSanitizedFailures_def)
  then show ?thesis
    by (simp add: remote_completion_outcome remote_completion_prompts)
qed

theorem empty_payload_is_a_miss_witness:
  "\<not> IsCacheDisabled (Cache empty_payload_analysis) \<and>
   Exists (Cache empty_payload_analysis) example_key \<and>
   Load (Cache empty_payload_analysis) example_key = Inr [] \<and>
   fst (getAIResultForSanitizedFailures example_env empty_payload_analysis
          [''pod web is crashing''] ''explain: '') = Inr ''restart the pod'' \<and>
   prompts (AIClient (snd (getAIResultForSanitizedFailures example_env empty_payload_analysis
          [''pod web is crashing''] ''explain: '')))
     = [''explain: englishpod web is crashing'']"
proof -
  have k: "cache_key example_env empty_payload_analysis [''pod web is crashing''] = example_key"
    by (simp add: cache_key_def example_defs empty_payload_analysis_def)
  have h: "\<not> IsCacheDisabled (Cache empty_payload_analysis)"
    "Exists (Cache empty_payload_analysis) example_key"
    "Load (Cache empty_payload_analysis) example_key = Inr []"
    by (simp_all add: empty_payload_analysis_def example_defs IsCacheDisabled_def Exists_def
        Load_def)
  note t = empty_payload_is_a_miss [of empty_payload_analysis example_env
        "[''pod web is crashing'']" "''explain: ''", unfolded k, OF h]
  have r: "respond (AIClient empty_payload_analysis) (prompts (AIClient empty_payload_analysis))
      (render_prompt example_env empty_payload_analysis [''pod web is crashing''] ''explain: '')
      = Inr ''restart the pod''"
    by (simp add: empty_payload_analysis_def example_defs)
  have p: "prompts (AIClient empty_payload_analysis) @
      [render_prompt example_env empty_payload_analysis [''pod web is crashing''] ''explain: '']
      = [''explain: englishpod web is crashing'']"
    by (simp add: empty_payload_analysis_def example_defs render_prompt_def)
  from t have "fst (getAIResultForSanitizedFailures example_env empty_payload_analysis
          [''pod web is crashing''] ''explain: '') = Inr ''restart the pod''"
    unfolding r by blast
  moreover from t have "prompts (AIClient (snd (getAIResultForSanitizedFailures example_env
      empty_payload_analysis [''pod web is crashing''] ''explain: '')))
     = [''explain: englishpod web is crashing'']"
    unfolding p by blast
  ultimately show ?thesis using h by blast
qed




text \<open>
  C6 (amended): with caching enabled and a cache that stores and loads the key without
  error, if a call of the step succeeds with a non-empty answer, then a second call with
  the same provider, language and texts does not call the completion client: it returns
  the same answer and leaves the state as it is, so that both calls together send at most
  one prompt; and the answer is the decoded payload that the cache holds for the key.
\<close>

theorem second_call_is_served_from_cache:
  assumes "\<not> disabled (Cache a)"
    and "store_error (Cache a) (cache_key env a texts) = None"
    and "load_error (Cache a) (cache_key env a texts) = None"
    and "getAIResultForSanitizedFailures env a texts promptTmpl = (Inr response, a1)"
    and "response \<noteq> []"
  shows "getAIResultForSanitizedFailures env a1 texts promptTmpl' = (Inr response, a1) \<and>
         length (prompts (AIClient a1)) \<le> Suc (length (prompts (AIClient a))) \<and>
         (\<exists>payload. entries (Cache a1) (cache_key env a1 texts) = Some payload \<and>
            DecodeString payload = Some response)"
proof (cases "Cache a" "cache_key env a texts" rule: cache_lookup_cases)
  case (hit payload out)
  then have "a1 = a" "out = response"
    using assms(4) getAI_hit [of a env texts out promptTmpl] by simp_all
  then show ?thesis
    using hit getAI_hit [of a env texts out promptTmpl'] by simp
next
  case (failed e)
  then show ?thesis
    using assms(4) by (simp add: getAIResultForSanitizedFailures_def)
next
  case (miss printed)
  define key where "key = cache_key env a texts"
  have a1: "cache_key env a1 texts = key" "\<not> disabled (Cache a1)"
    "load_error (Cache a1) key = None"
    "entries (Cache a1) key = Some (EncodeToString response)"
    "prompts (AIClient a1) = prompts (AIClient a)
       @ [render_prompt env a texts promptTmpl]"
    using assms(1-4) miss
    by (auto simp add: key_def getAIResultForSanitizedFailures_def remote_completion_def
        GetCompletion_def Store_def cache_key_def
        split: sum.splits prod.splits option.splits if_splits)
  have "cache_lookup (Cache a1) (cache_key env a1 texts) = Hit response"
    using a1 assms(5) by (simp add: cache_lookup_stored)
  then have "getAIResultForSanitizedFailures env a1 texts promptTmpl' = (Inr response, a1)"
    by (rule getAI_hit)
  then show ?thesis
    using a1 by (simp add: DecodeString_EncodeToString)
qed

theorem second_call_is_served_from_cache_witness:
  "fst (getAIResultForSanitizedFailures example_env example_analysis
          [''pod web is crashing''] ''explain: '') = Inr ''restart the pod'' \<and>
   fst (getAIResultForSanitizedFailures example_env
          (snd (getAIResultForSanitizedFailures example_env example_analysis
                  [''pod web is crashing''] ''explain: ''))
          [''pod web is crashing''] ''explain: '') = Inr ''restart the pod'' \<and>
   length (prompts (AIClient (snd (getAIResultForSanitizedFailures example_env
          (snd (getAIResultForSanitizedFailures example_env example_analysis
                  [''pod web is crashing''] ''explain: ''))
          [''pod web is crashing''] ''explain: '')))) = 1"
proof -
  let ?texts = "[''pod web is crashing'']"
  let ?first = "getAIResultForSanitizedFailures example_env example_analysis ?texts ''explain: ''"
  have h: "\<not> disabled (Cache example_analysis)"
    "store_error (Cache example_analysis) (cache_key example_env example_analysis ?texts) = None"
    "load_error (Cache example_analysis) (cache_key example_env example_analysis ?texts) = None"
    by (simp_all add: example_defs)
  have f: "fst ?first = Inr ''restart the pod''"
    by (simp add: example_defs step_defs)
  then have g: "?first = (Inr ''restart the pod'', snd ?first)"
    by (metis prod.collapse)
  have n: "length (prompts (AIClient (snd ?first))) = 1"
    by (simp add: example_defs step_defs)
  have "getAIResultForSanitizedFailures example_env (snd ?first) ?texts ''explain: ''
      = (Inr ''restart the pod'', snd ?first)"
    using second_call_is_served_from_cache [OF h g, of "''explain: ''"] by simp
  then show ?thesis using f n by simp
qed

text \<open>
  The claim C6 as stated fails when the first answer is the empty string: its encoding
  is the empty payload, which the second call takes for a miss (lines 529-535), and the
  completion client is called twice.
\<close>

theorem empty_answer_is_requested_again:
  "\<not> IsCacheDisabled (Cache silent_analysis) \<and>
   fst (getAIResultForSanitizedFailures example_env silent_analysis
          [''pod web is crashing''] ''explain: '') = Inr [] \<and>
   fst (getAIResultForSanitizedFailures example_env
          (snd (getAIResultForSanitizedFailures example_env silent_analysis
                  [''pod web is crashing''] ''explain: ''))
          [''pod web is crashing''] ''explain: '') = Inr [] \<and>
   length (prompts (AIClient (snd (getAIResultForSanitizedFailures example_env
          (snd (getAIResultForSanitizedFailures example_env silent_analysis
                  [''pod web is crashing''] ''explain: ''))
          [''pod web is crashing''] ''explain: '')))) = 2"
  by (simp add: silent_analysis_def example_defs step_defs)

text \<open>
  C7: when the step reaches the completion client and the call fails with \<open>e\<close>, the
  loop of \<^verbatim>\<open>GetAIResults\<close> returns the quota error with the name of the provider if
  \<open>e\<close> contains \<^verbatim>\<open>status code: 429\<close>, and the general error with the name of the
  provider otherwise.
\<close>

theorem remote_error_classified:
  assumes "cache_lookup (Cache a) (cache_key env a (failure_texts anonymize r)) = Miss printed"
    and "respond (AIClient a) (prompts (AIClient a))
           (render_prompt env a (failure_texts anonymize r) (prompt_template a r)) = Inl e"
  shows "fst (explain_from env anonymize i (r # todo) a)
     = Some (if Contains e ''status code: 429''
             then ''exhausted API quota for AI provider '' @ GetName (AIClient a) @ '': '' @ e
             else ''failed while calling AI provider '' @ GetName (AIClient a) @ '': '' @ e)"
proof -
  obtain res a' where g: "getAIResultForSanitizedFailures env a (failure_texts anonymize r)
      (prompt_template a r) = (res, a')"
    by (cases "getAIResultForSanitizedFailures env a (failure_texts anonymize r)
      (prompt_template a r)")
  have "res = Inl e"
    using getAI_miss(1) [OF assms(1), of "prompt_template a r"] assms(2) g by simp
  moreover have "GetName (AIClient a') = GetName (AIClient a)"
    using getAI_name [of env a "failure_texts anonymize r" "prompt_template a r"] g by simp
  ultimately show ?thesis
    using g by (simp add: provider_error_def)
qed

theorem remote_error_classified_witness:
  "fst (explain_from example_env False 0 [example_result] quota_analysis)
     = Some (''exhausted API quota for AI provider openai: '' @
             ''error, status code: 429, message: slow down'') \<and>
   fst (explain_from example_env False 0 [example_result] unreachable_analysis)
     = Some ''failed while calling AI provider openai: connection refused''"
proof -
  have q: "cache_lookup (Cache quota_analysis)
        (cache_key example_env quota_analysis (failure_texts False example_result)) = Miss []"
    "respond (AIClient quota_analysis) (prompts (AIClient quota_analysis))
        (render_prompt example_env quota_analysis (failure_texts False example_result)
           (prompt_template quota_analysis example_result))
      = Inl ''error, status code: 429, message: slow down''"
    by (simp_all add: quota_analysis_def example_defs cache_lookup_def IsCacheDisabled_def
        Exists_def)
  have u: "cache_lookup (Cache unreachable_analysis)
        (cache_key example_env unreachable_analysis (failure_texts False example_result))
      = Miss []"
    "respond (AIClient unreachable_analysis) (prompts (AIClient unreachable_analysis))
        (render_prompt example_env unreachable_analysis (failure_texts False example_result)
           (prompt_template unreachable_analysis example_result))
      = Inl ''connection refused''"
    by (simp_all add: unreachable_analysis_def example_defs cache_lookup_def
        IsCacheDisabled_def Exists_def)
  have n: "GetName (AIClient quota_analysis) = ''openai''"
    "GetName (AIClient unreachable_analysis) = ''openai''"
    by (simp_all add: quota_analysis_def unreachable_analysis_def example_defs)
  show ?thesis
    using remote_error_classified [OF q, of 0 "[]"] remote_error_classified [OF u, of 0 "[]"]
    by (simp add: n)
qed

text \<open>
  C9: let the results be \<open>pre @ r # post\<close>, let the loop explain \<open>pre\<close> and reach the
  state \<open>a1\<close>, and let the step fail there for \<open>r\<close>. Then \<^verbatim>\<open>GetAIResults\<close> returns the
  error at once, and its results are those of \<open>a1\<close>: the results before \<open>r\<close> are the
  ones of \<open>pre\<close> with the \<open>Details\<close> assigned to them, and \<open>r\<close> and the results after
  it are unchanged.
\<close>

theorem abort_keeps_explained_results:
  assumes "Results a = pre @ r # post"
    and "explain_from env anonymize 0 pre a = (None, a1)"
    and "getAIResultForSanitizedFailures env a1 (failure_texts anonymize r)
           (prompt_template a1 r) = (Inl e, a2)"
  shows "GetAIResults env a anonymize = (Some (provider_error a2 e), a2) \<and>
         Results a2 = Results a1 \<and>
         length (Results a2) = length (Results a) \<and>
         drop (length pre) (Results a2) = r # post \<and>
         (\<forall>k<length pre. \<exists>d. Results a2 ! k = (pre ! k)\<lparr>Details := d\<rparr>)"
proof -
  have same: "Results a2 = Results a1"
    using getAI_Results [of env a1 "failure_texts anonymize r" "prompt_template a1 r"] assms(3)
    by simp
  have "explain_from env anonymize 0 (pre @ r # post) a = (Some (provider_error a2 e), a2)"
    using assms(2,3) by (simp add: explain_from_append)
  then have run: "GetAIResults env a anonymize = (Some (provider_error a2 e), a2)"
    using assms(1) by (simp add: GetAIResults_def)
  have len: "length (Results a1) = length (Results a)"
    using explain_from_length [of env anonymize 0 pre a] assms(2) by simp
  have "\<forall>j. length pre \<le> j \<longrightarrow> Results a1 ! j = Results a ! j"
    using explain_from_outside [of _ 0 pre env anonymize a] assms(2) by simp
  then have "drop (length pre) (Results a1) = drop (length pre) (Results a)"
    using len by (intro nth_equalityI) simp_all
  then have rest: "drop (length pre) (Results a1) = r # post"
    using assms(1) by simp
  have "\<forall>k<length pre. \<exists>d. Results a1 ! k = (pre ! k)\<lparr>Details := d\<rparr>"
    using explain_from_inside [of env anonymize 0 pre a] assms(1,2) by simp
  then show ?thesis using run same len rest by simp
qed

theorem abort_keeps_explained_results_witness:
  "GetAIResults example_env one_answer_analysis False
     = (Some ''failed while calling AI provider openai: connection refused'',
        snd (GetAIResults example_env one_answer_analysis False)) \<and>
   Results (snd (GetAIResults example_env one_answer_analysis False))
     = [example_result\<lparr>Details := ''restart the pod''\<rparr>, second_result]"
proof -
  define a1 where "a1 = snd (explain_from example_env False 0 [example_result] one_answer_analysis)"
  define a2 where "a2 = snd (getAIResultForSanitizedFailures example_env a1
      (failure_texts False second_result) (prompt_template a1 second_result))"
  have h1: "Results one_answer_analysis = [example_result] @ second_result # []"
    by (simp add: one_answer_analysis_def example_defs)
  have "fst (explain_from example_env False 0 [example_result] one_answer_analysis) = None"
    by (simp add: one_answer_analysis_def second_result_def example_defs step_defs)
  then have h2: "explain_from example_env False 0 [example_result] one_answer_analysis
      = (None, a1)"
    unfolding a1_def by (metis prod.collapse)
  have "fst (getAIResultForSanitizedFailures example_env a1
      (failure_texts False second_result) (prompt_template a1 second_result))
      = Inl ''connection refused''"
    unfolding a1_def
    by (simp add: one_answer_analysis_def second_result_def example_defs step_defs)
  then have h3: "getAIResultForSanitizedFailures example_env a1
      (failure_texts False second_result) (prompt_template a1 second_result)
      = (Inl ''connection refused'', a2)"
    unfolding a2_def by (metis prod.collapse)
  have e: "provider_error a2 ''connection refused''
      = ''failed while calling AI provider openai: connection refused''"
    unfolding a2_def a1_def
    by (simp add: one_answer_analysis_def second_result_def example_defs step_defs)
  have r: "Results a1 = [example_result\<lparr>Details := ''restart the pod''\<rparr>, second_result]"
    unfolding a1_def
    by (simp add: one_answer_analysis_def second_result_def example_defs step_defs)
  have "GetAIResults example_env one_answer_analysis False
      = (Some (provider_error a2 ''connection refused''), a2) \<and> Results a2 = Results a1"
    using abort_keeps_explained_results [OF h1 h2 h3] by blast
  then show ?thesis
    unfolding e r by simp
qed




subsection \<open>Runs of RunAnalysis\<close>


















lemma fetch_docs_Results [simp]: "Results (fetch_docs env a) = Results a"
  by (simp add: fetch_docs_def split: option.splits)







subsection \<open>RunAnalysis returns\<close>

text \<open>A turn of the loop or a goroutine can always go on, each step brings the run
  nearer to its end, and so every run that has come to some state can be continued to
  the end: no state that is reached is a deadlock, whichever tasks have failed.\<close>

lemma run_step_tokens:
  assumes "run_step cap sel ev s = Some s'" "tokens s = length (inflight s)"
  shows "tokens s' = length (inflight s')"
  using assms
  by (cases ev) (auto split: list.splits option.splits if_splits)

lemma run_step_progress:
  assumes "0 < cap" "tokens s = length (inflight s)" "\<not> finished s"
  shows "\<exists>ev s'. run_step cap sel ev s = Some s'"
proof (cases "inflight s")
  case Nil
  then obtain t rest where "pending s = t # rest"
    using assms(3) by (cases "pending s") (auto simp: finished_def)
  then have "\<exists>s'. run_step cap sel Submit s = Some s'"
    using assms(1,2) Nil by (cases t; cases "snd t") auto
  then show ?thesis by blast
next
  case (Cons t ts)
  then have "\<exists>s'. run_step cap sel (Finish 0) s = Some s'"
    using assms(2) by simp
  then show ?thesis by blast
qed

lemma run_step_measure:
  assumes "run_step cap sel ev s = Some s'" 
  shows "2 * length (pending s') + length (inflight s')
       < 2 * length (pending s) + length (inflight s)"
  using assms
  by (cases ev) (auto split: list.splits option.splits if_splits)

lemma run_events_append:
  "run_events cap sel (evs @ evs') s =
     (case run_events cap sel evs s of None \<Rightarrow> None | Some s' \<Rightarrow> run_events cap sel evs' s')"
  by (induction evs arbitrary: s) (auto split: option.splits)

lemma run_can_finish:
  assumes "0 < cap" "tokens s = length (inflight s)"
  shows "\<exists>evs s'. run_events cap sel evs s = Some s' \<and> finished s'"
  using assms(2)
proof (induction "2 * length (pending s) + length (inflight s)" arbitrary: s rule: less_induct)
  case less
  show ?case
  proof (cases "finished s")
    case True
    then have "run_events cap sel [] s = Some s \<and> finished s" by simp
    then show ?thesis by blast
  next
    case False
    then obtain ev s1 where 1: "run_step cap sel ev s = Some s1"
      using run_step_progress [OF assms(1) less.prems] by blast
    then obtain evs s' where "run_events cap sel evs s1 = Some s'" "finished s'"
      using less.hyps [OF run_step_measure [OF 1] run_step_tokens [OF 1 less.prems]] by blast
    then have "run_events cap sel (ev # evs) s = Some s' \<and> finished s'"
      using 1 by simp
    then show ?thesis by blast
  qed
qed

lemma run_events_tokens:
  assumes "run_events cap sel evs s = Some s'" "tokens s = length (inflight s)"
  shows "tokens s' = length (inflight s')"
  using assms
proof (induction evs arbitrary: s)
  case Nil
  then show ?case by simp
next
  case (Cons ev evs)
  then obtain s1 where 1: "run_step cap sel ev s = Some s1" "run_events cap sel evs s1 = Some s'"
    by (auto split: option.splits)
  show ?case
    using Cons.IH [OF 1(2) run_step_tokens [OF 1(1) Cons.prems(2)]] .
qed

lemma semaphore_capacity_positive: "0 < semaphore_capacity a"
  using concurrency_limit_range [of "MaxConcurrency a"] by (simp add: semaphore_capacity_def)

lemma RunAnalysis_completes:
  assumes "run_events (semaphore_capacity a) (fst (select_analyzers env a)) evs
             (initial_state env a) = Some s"
  shows "\<exists>evs' s'. run_analysis env a (evs @ evs') = Some s'"
proof -
  have "tokens s = length (inflight s)"
    using run_events_tokens [OF assms] by (simp add: initial_state_def)
  then obtain evs' s' where "run_events (semaphore_capacity a) (fst (select_analyzers env a))
      evs' s = Some s'" "finished s'"
    using run_can_finish [OF semaphore_capacity_positive] by blast
  then have "run_analysis env a (evs @ evs') = Some s'"
    using assms by (simp add: run_analysis_def run_events_append)
  then show ?thesis by blast
qed

subsection \<open>Runs of RunCustomAnalysis\<close>

lemma custom_events_stuck:
  assumes "\<And>ev. custom_step cap ev s = None"
  shows "custom_events cap evs s = (if evs = [] then Some s else None)"
  using assms by (cases evs) simp_all

text \<open>
  C4: the claim says that \<^verbatim>\<open>RunCustomAnalysis\<close> sizes its semaphore by the clamping
  rule of \<^verbatim>\<open>RunAnalysis\<close>. Line 247 hands \<^verbatim>\<open>a.MaxConcurrency\<close> to \<^verbatim>\<open>make\<close> as it
  is: for the limit 0, where \<^verbatim>\<open>RunAnalysis\<close> takes 10, no run with a custom analyzer
  returns, as the first send blocks for ever; for a negative limit \<^verbatim>\<open>make\<close> panics;
  for the limit 1 the run returns.
\<close>

theorem custom_runner_is_not_clamped:
  "semaphore_capacity (example_analysis\<lparr>MaxConcurrency := 0\<rparr>) = 10 \<and>
   (\<forall>schedule. RunCustomAnalysis (Inr [example_plugin])
      (example_analysis\<lparr>MaxConcurrency := 0\<rparr>) schedule = Inr None) \<and>
   (\<forall>schedule. RunCustomAnalysis (Inr [example_plugin])
      (example_analysis\<lparr>MaxConcurrency := - 1\<rparr>) schedule = Inl ''makechan: size out of range'') \<and>
   map_sum id (map_option Results)
     (RunCustomAnalysis (Inr [example_plugin]) (example_analysis\<lparr>MaxConcurrency := 1\<rparr>)
        [CSubmit, CRun 0, CReceive])
     = Inr (Some [example_result, second_result\<lparr>Kind := ''host-analyzer''\<rparr>])"
proof -
  let ?s0 = "\<lparr>c_pending = [example_plugin], c_inflight = [], c_receiving = 0, c_tokens = 0,
      c_store = example_analysis\<lparr>MaxConcurrency := 0\<rparr>\<rparr>"
  have stuck: "custom_step 0 ev ?s0 = None" for ev
    by (cases ev) simp_all
  have "custom_events 0 schedule ?s0 = (if schedule = [] then Some ?s0 else None)" for schedule
    using stuck by (rule custom_events_stuck)
  then have 1: "RunCustomAnalysis (Inr [example_plugin])
      (example_analysis\<lparr>MaxConcurrency := 0\<rparr>) schedule = Inr None" for schedule
    by (simp add: RunCustomAnalysis_def custom_finished_def)
  have 2: "RunCustomAnalysis (Inr [example_plugin])
      (example_analysis\<lparr>MaxConcurrency := - 1\<rparr>) schedule = Inl ''makechan: size out of range''"
    for schedule
    by (simp add: RunCustomAnalysis_def)
  have 3: "map_sum id (map_option Results)
     (RunCustomAnalysis (Inr [example_plugin]) (example_analysis\<lparr>MaxConcurrency := 1\<rparr>)
        [CSubmit, CRun 0, CReceive])
     = Inr (Some [example_result, second_result\<lparr>Kind := ''host-analyzer''\<rparr>])"
    by (simp add: RunCustomAnalysis_def custom_finished_def custom_goroutine_def
        example_plugin_def example_analysis_def second_result_def)
  have 0: "semaphore_capacity (example_analysis\<lparr>MaxConcurrency := 0\<rparr>) = 10"
    by (simp add: semaphore_capacity_def concurrency_limit_def)
  show ?thesis using 0 1 2 3 by blast
qed

text \<open>
  A goroutine whose client cannot be made returns in line 272 without its receive from
  the semaphore, so the value sent for it stays in the channel. With the limit 1 and a
  second custom analyzer behind such a one, no run returns.
\<close>

lemma custom_client_error_keeps_its_slot:
  "RunCustomAnalysis (Inr [broken_plugin, example_plugin])
     (example_analysis\<lparr>MaxConcurrency := 1\<rparr>) schedule = Inr None"
proof -
  define a where "a = example_analysis\<lparr>MaxConcurrency := 1\<rparr>"
  define a' where "a' = fst (custom_goroutine a broken_plugin)"
  define s0 where "s0 = \<lparr>c_pending = [broken_plugin, example_plugin], c_inflight = [],
      c_receiving = 0, c_tokens = 0, c_store = a\<rparr>"
  define s1 where "s1 = \<lparr>c_pending = [example_plugin], c_inflight = [broken_plugin],
      c_receiving = 0, c_tokens = 1, c_store = a\<rparr>"
  define s2 where "s2 = \<lparr>c_pending = [example_plugin], c_inflight = [],
      c_receiving = 0, c_tokens = 1, c_store = a'\<rparr>"
  have e0: "custom_step (Suc 0) ev s0 = (if ev = CSubmit then Some s1 else None)" for ev
    by (cases ev) (simp_all add: s0_def s1_def)
  have e1: "custom_step (Suc 0) ev s1 = (if ev = CRun 0 then Some s2 else None)" for ev
    by (cases ev)
      (auto simp add: s1_def s2_def a'_def custom_goroutine_def broken_plugin_def)
  have e2: "custom_step (Suc 0) ev s2 = None" for ev
    by (cases ev) (simp_all add: s2_def)
  have n: "\<not> custom_finished s0" "\<not> custom_finished s1" "\<not> custom_finished s2"
    by (simp_all add: custom_finished_def s0_def s1_def s2_def)
  have r2: "custom_events (Suc 0) evs s2 = (if evs = [] then Some s2 else None)" for evs
    using e2 by (rule custom_events_stuck)
  have r1: "custom_events (Suc 0) evs s1 = Some s \<Longrightarrow> \<not> custom_finished s" for evs s
    using n by (cases evs) (auto simp add: e1 r2 split: if_splits)
  have r0: "custom_events (Suc 0) evs s0 = Some s \<Longrightarrow> \<not> custom_finished s" for evs s
    using n r1 by (cases evs) (auto simp add: e0 split: if_splits)
  show ?thesis
    using r0 [of schedule]
    by (auto simp add: RunCustomAnalysis_def a_def s0_def split: option.splits)
qed

end
